theory Spec2Isabelle
  imports Main "HOL-Library.AList" "HOL-Library.Sublist"
begin

section \<open>Data model of \<open>upload.py\<close>\<close>

text \<open>
  The graph description is read with \<open>json.load\<close>, so a property value is a JSON value;
  \<open>null\<close> is Python's \<open>None\<close>. The uploader only ever tests a value against \<open>None\<close>
  and otherwise passes it on unchanged (JSON fractions, Python floats, are left out of the
  value type: no code path looks inside a value).
\<close>

datatype json =
    JNull
  | JBool bool
  | JInt int
  | JStr string
  | JList "json list"
  | JObj "(string \<times> json) list"

text \<open>
  A Python \<open>dict\<close> keeps insertion order and has one entry per key. It is modelled as an
  association list in insertion order; \<open>AList.update\<close> is \<open>d[k] = v\<close> (an existing key
  keeps its position and gets the new value, a new key goes to the end). A dict display or
  comprehension, and the merge \<open>{**a, **b, **c}\<close>, insert their pairs one after the other
  into an empty dict.
\<close>

type_synonym ('k, 'v) dict = "('k \<times> 'v) list"

definition dict_of_items :: "('k \<times> 'v) list \<Rightarrow> ('k, 'v) dict" where
  "dict_of_items kvs = fold (\<lambda>(k, v) d. AList.update k v d) kvs []"

definition keys :: "('k, 'v) dict \<Rightarrow> 'k list" where
  "keys d = map fst d"

text \<open>\<open>sep.join(xs)\<close> of Python.\<close>

fun join :: "string \<Rightarrow> string list \<Rightarrow> string" where
  "join sep [] = []"
| "join sep [x] = x"
| "join sep (x # y # ys) = x @ sep @ join sep (y # ys)"

text \<open>
  \<open>Node\<close> and \<open>Edge\<close> are the two subclasses of the dataclass \<open>Neo4jItem\<close>; they differ
  only in the class attributes \<open>OPENING\<close> and \<open>CLOSING\<close>. \<open>main\<close> builds every value of
  \<open>nodes\<close> as a \<open>Node\<close> and every value of \<open>edges\<close> as an \<open>Edge\<close>, so the class of
  the receiver is known at each call of \<open>query_str\<close> and is passed as its first argument.
\<close>

datatype item_class = Node | Edge

record Neo4jItem =
  label :: string
  properties :: "(string, json) dict"

fun OPENING :: "item_class \<Rightarrow> string" where
  "OPENING Node = ''(''"
| "OPENING Edge = ''[''"

fun CLOSING :: "item_class \<Rightarrow> string" where
  "CLOSING Node = '')''"
| "CLOSING Edge = '']''"

datatype Direction = LEFT | RIGHT

section \<open>Property serialisation: \<open>Neo4jItem.query_str\<close>\<close>

definition query_str :: "item_class \<Rightarrow> Neo4jItem \<Rightarrow> string \<Rightarrow> string \<times> (string, json) dict" where
  "query_str cls self identifier =
     (let props = dict_of_items (filter (\<lambda>(k, v). v \<noteq> JNull) (properties self));
          start = identifier @ '': '' @ label self @ '' '';
          mid = ''{'' @ join '', '' (map (\<lambda>k. k @ '': $'' @ identifier @ ''_'' @ k) (keys props)) @ ''}'';
          query = OPENING cls @ start @ mid @ CLOSING cls
      in (query, dict_of_items (map (\<lambda>(k, v). (identifier @ ''_'' @ k, v)) props)))"

section \<open>The edge identifier grammar: \<open>EDGE_REGEX\<close>\<close>

text \<open>
  \<open>NODE_ID_PATTERN\<close> is the character class \<open>[a-zA-Z0-9.,\-_ ]\<close> repeated once or more.
\<close>

definition is_id_char :: "char \<Rightarrow> bool" where
  "is_id_char c \<longleftrightarrow>
     c \<in> set ''abcdefghijklmnopqrstuvwxyzABCDEFGHIJKLMNOPQRSTUVWXYZ0123456789.,-_ ''"

definition NODE_ID_PATTERN :: string where
  "NODE_ID_PATTERN = ''[a-zA-Z0-9.,'' @ [CHR 0x5C] @ ''-_ ]+''"

definition EDGE_REGEX_pattern :: string where
  "EDGE_REGEX_pattern = ''('' @ NODE_ID_PATTERN @ '')(<-|->)('' @ NODE_ID_PATTERN @ '')''"

text \<open>
  \<open>EDGE_REGEX.match(eid)\<close> matches at the start of \<open>eid\<close> and need not reach its end.
  Group 1 is greedy: it first takes the longest run of id characters and gives characters
  back one at a time (never fewer than one) until the two characters after it are \<open><-\<close>
  or \<open>->\<close> and at least one id character follows; group 3 then takes the longest run of
  id characters there. \<open>backtrack n s\<close> tries group 1 with \<open>n\<close> characters, then
  \<open>n - 1\<close>, down to one.
\<close>

fun backtrack :: "nat \<Rightarrow> string \<Rightarrow> (string \<times> string \<times> string) option" where
  "backtrack 0 s = None"
| "backtrack (Suc n) s =
     (let rest = drop (Suc n) s;
          tok = take 2 rest;
          g3 = takeWhile is_id_char (drop 2 rest)
      in if (tok = ''<-'' \<or> tok = ''->'') \<and> g3 \<noteq> []
         then Some (take (Suc n) s, tok, g3)
         else backtrack n s)"

definition EDGE_REGEX_match :: "string \<Rightarrow> (string \<times> string \<times> string) option" where
  "EDGE_REGEX_match eid = backtrack (length (takeWhile is_id_char eid)) eid"

fun DIRECTION_NAME_TABLE :: "string \<Rightarrow> Direction option" where
  "DIRECTION_NAME_TABLE tok =
     (if tok = ''->'' then Some RIGHT
      else if tok = ''<-'' then Some LEFT
      else None)"

section \<open>The transaction and the store\<close>

text \<open>
  The neo4j driver is outside the repository. A transaction is the list of the statements
  passed to \<open>tx.run\<close> so far, the last one included when it is the one that raised. The
  store is a parameter: it decides, from the statements already run and the new one,
  whether \<open>tx.run\<close> raises (with which message), and whether \<open>tx.commit\<close> raises.
  \<open>tx.rollback\<close> does not raise.
\<close>

type_synonym statement = "string \<times> (string, json) dict"

type_synonym transaction = "statement list"

record store =
  run_raises :: "statement list \<Rightarrow> statement \<Rightarrow> string option"
  commit_raises :: "statement list \<Rightarrow> string option"

text \<open>
  The two exceptions raised by \<open>upload_graph\<close> itself are plain \<open>Exception\<close>s that differ
  in their message; an exception of the driver is a \<open>StoreError\<close>.
\<close>

datatype error = Exception string | StoreError string

definition ParseError :: "string \<Rightarrow> string \<Rightarrow> error" where
  "ParseError eid pattern =
     Exception (''Edge '' @ [CHR 0x27] @ eid @ [CHR 0x27] @ '' does not seem to conform to ''
                @ [CHR 0x27] @ pattern @ [CHR 0x27])"

definition UnknownNodeReference :: "string \<Rightarrow> string \<Rightarrow> error" where
  "UnknownNodeReference eid nid =
     Exception (''Edge '' @ [CHR 0x27] @ eid @ [CHR 0x27] @ '' uses node '' @ [CHR 0x27] @ nid
                @ [CHR 0x27] @ '' which cannot be found in the nodes'')"

text \<open>A call returns the transaction after it and the exception it raised, if any.\<close>

type_synonym result = "transaction \<times> error option"

definition tx_run :: "store \<Rightarrow> statement \<Rightarrow> transaction \<Rightarrow> result" where
  "tx_run st q tx =
     (case run_raises st tx q of
        Some msg \<Rightarrow> (tx @ [q], Some (StoreError msg))
      | None \<Rightarrow> (tx @ [q], None))"

section \<open>Statement building: \<open>create_node\<close> and \<open>create_edge\<close>\<close>

definition create_node_statement :: "Neo4jItem \<Rightarrow> statement" where
  "create_node_statement node =
     (let (node_query_str, params) = query_str Node node ''n'';
          query = ''CREATE '' @ node_query_str
      in (query, params))"

definition create_node :: "store \<Rightarrow> Neo4jItem \<Rightarrow> transaction \<Rightarrow> result" where
  "create_node st node tx = tx_run st (create_node_statement node) tx"

definition create_edge_statement ::
    "Neo4jItem \<Rightarrow> Neo4jItem \<Rightarrow> Neo4jItem \<Rightarrow> Direction \<Rightarrow> statement" where
  "create_edge_statement node1 node2 edge direction =
     (let (node1_query_str, node1_params) = query_str Node node1 ''n1'';
          (node2_query_str, node2_params) = query_str Node node2 ''n2'';
          (edge_query_str, edge_query_params) = query_str Edge edge ''n'';
          left_symbol = (if direction = LEFT then ''<-'' else ''-'');
          right_symbol = (if direction = RIGHT then ''->'' else ''-'');
          query = ''\<newline>        MATCH '' @ node1_query_str
                @ ''\<newline>        MATCH '' @ node2_query_str
                @ ''\<newline>        CREATE (n1)'' @ left_symbol @ edge_query_str @ right_symbol @ ''(n2)''
                @ ''\<newline>    '';
          combined_params = dict_of_items (node1_params @ node2_params @ edge_query_params)
      in (query, combined_params))"

definition create_edge ::
    "store \<Rightarrow> Neo4jItem \<Rightarrow> Neo4jItem \<Rightarrow> Neo4jItem \<Rightarrow> Direction \<Rightarrow> transaction \<Rightarrow> result" where
  "create_edge st node1 node2 edge direction tx =
     tx_run st (create_edge_statement node1 node2 edge direction) tx"

section \<open>The upload protocol: \<open>upload_graph\<close> and \<open>main\<close>\<close>

text \<open>The first loop of \<open>upload_graph\<close>: one \<open>create_node\<close> per entry of \<open>nodes\<close>.\<close>

fun create_nodes :: "store \<Rightarrow> (string, Neo4jItem) dict \<Rightarrow> transaction \<Rightarrow> result" where
  "create_nodes st [] tx = (tx, None)"
| "create_nodes st ((nid, node) # rest) tx =
     (case create_node st node tx of
        (tx', Some ex) \<Rightarrow> (tx', Some ex)
      | (tx', None) \<Rightarrow> create_nodes st rest tx')"

text \<open>
  The inner loop \<open>for nid in (left_nid, right_nid)\<close>: the first endpoint that is not a
  key of \<open>nodes\<close>, if any.
\<close>

fun missing_endpoint :: "(string, Neo4jItem) dict \<Rightarrow> string list \<Rightarrow> string option" where
  "missing_endpoint nodes [] = None"
| "missing_endpoint nodes (nid # nids) =
     (if map_of nodes nid = None then Some nid else missing_endpoint nodes nids)"

text \<open>
  The body of the second loop up to the call of \<open>create_edge\<close>: match the identifier,
  check both endpoints, look the nodes and the direction up. The lookups cannot fail once
  the checks have passed (a matched group 2 is one of the two keys of the table); the
  model keeps every branch.
\<close>

definition resolve_edge ::
    "(string, Neo4jItem) dict \<Rightarrow> string \<Rightarrow> error + (Neo4jItem \<times> Neo4jItem \<times> Direction)" where
  "resolve_edge nodes eid =
     (case EDGE_REGEX_match eid of
        None \<Rightarrow> Inl (ParseError eid EDGE_REGEX_pattern)
      | Some (left_nid, tok, right_nid) \<Rightarrow>
          (case missing_endpoint nodes [left_nid, right_nid] of
             Some nid \<Rightarrow> Inl (UnknownNodeReference eid nid)
           | None \<Rightarrow>
               (case (map_of nodes left_nid, map_of nodes right_nid, DIRECTION_NAME_TABLE tok) of
                  (Some node1, Some node2, Some direction) \<Rightarrow> Inr (node1, node2, direction)
                | _ \<Rightarrow> Inl (Exception ''KeyError''))))"

fun create_edges ::
    "store \<Rightarrow> (string, Neo4jItem) dict \<Rightarrow> (string, Neo4jItem) dict \<Rightarrow> transaction \<Rightarrow> result" where
  "create_edges st nodes [] tx = (tx, None)"
| "create_edges st nodes ((eid, edge) # rest) tx =
     (case resolve_edge nodes eid of
        Inl ex \<Rightarrow> (tx, Some ex)
      | Inr (node1, node2, direction) \<Rightarrow>
          (case create_edge st node1 node2 edge direction tx of
             (tx', Some ex) \<Rightarrow> (tx', Some ex)
           | (tx', None) \<Rightarrow> create_edges st nodes rest tx'))"

definition upload_graph ::
    "store \<Rightarrow> (string, Neo4jItem) dict \<Rightarrow> (string, Neo4jItem) dict \<Rightarrow> transaction \<Rightarrow> result" where
  "upload_graph st nodes edges tx =
     (case create_nodes st nodes tx of
        (tx', Some ex) \<Rightarrow> (tx', Some ex)
      | (tx', None) \<Rightarrow> create_edges st nodes edges tx')"

text \<open>The two statements of the prior clear, each with no parameters.\<close>

definition clear_statements :: "statement list" where
  "clear_statements = [(''MATCH (a)-[e]-(b) DELETE e;'', []), (''MATCH (n) DELETE n;'', [])]"

fun run_all :: "store \<Rightarrow> statement list \<Rightarrow> transaction \<Rightarrow> result" where
  "run_all st [] tx = (tx, None)"
| "run_all st (q # qs) tx =
     (case tx_run st q tx of
        (tx', Some ex) \<Rightarrow> (tx', Some ex)
      | (tx', None) \<Rightarrow> run_all st qs tx')"

text \<open>The body of the \<open>try\<close> block of \<open>main\<close>, on the transaction just begun.\<close>

definition try_block ::
    "store \<Rightarrow> bool \<Rightarrow> (string, Neo4jItem) dict \<Rightarrow> (string, Neo4jItem) dict \<Rightarrow> result" where
  "try_block st clear nodes edges =
     (case (if clear then run_all st clear_statements [] else ([], None)) of
        (tx, Some ex) \<Rightarrow> (tx, Some ex)
      | (tx, None) \<Rightarrow> upload_graph st nodes edges tx)"

text \<open>
  What one run of \<open>main\<close> does to the transaction, in order, what it writes as the error,
  and the exit status of the process. An exception of \<open>tx.commit\<close> is not caught: the
  interpreter reports it and exits with status 1.
\<close>

datatype tx_event = Run statement | Rollback | Commit

record outcome =
  events :: "tx_event list"
  reported :: "error option"
  exit_code :: nat

definition main ::
    "store \<Rightarrow> bool \<Rightarrow> (string, Neo4jItem) dict \<Rightarrow> (string, Neo4jItem) dict \<Rightarrow> outcome" where
  "main st clear nodes edges =
     (case try_block st clear nodes edges of
        (tx, Some ex) \<Rightarrow>
          \<lparr>events = map Run tx @ [Rollback], reported = Some ex, exit_code = 1\<rparr>
      | (tx, None) \<Rightarrow>
          (case commit_raises st tx of
             Some msg \<Rightarrow>
               \<lparr>events = map Run tx @ [Commit], reported = Some (StoreError msg), exit_code = 1\<rparr>
           | None \<Rightarrow>
               \<lparr>events = map Run tx @ [Commit], reported = None, exit_code = 0\<rparr>))"

section \<open>Notions used to state the properties\<close>

text \<open>
  The property-list text emitted for the keys \<open>ks\<close> under a role identifier; the entries
  and the keys of a property mapping whose value is not null, in the order of the mapping;
  the parameters bound for them; and the pattern of an item under a role identifier: its
  label and its property list between the brackets of its class.
\<close>

definition property_list_text :: "string \<Rightarrow> string list \<Rightarrow> string" where
  "property_list_text identifier ks =
     ''{'' @ join '', '' (map (\<lambda>k. k @ '': $'' @ identifier @ ''_'' @ k) ks) @ ''}''"

definition non_null_items :: "(string, json) dict \<Rightarrow> (string, json) dict" where
  "non_null_items props = filter (\<lambda>(k, v). v \<noteq> JNull) props"

definition non_null_keys :: "(string, json) dict \<Rightarrow> string list" where
  "non_null_keys props = map fst (filter (\<lambda>(k, v). v \<noteq> JNull) props)"

definition bound_params :: "Neo4jItem \<Rightarrow> string \<Rightarrow> (string, json) dict" where
  "bound_params item identifier =
     map (\<lambda>(k, v). (identifier @ ''_'' @ k, v)) (non_null_items (properties item))"

definition pattern :: "item_class \<Rightarrow> Neo4jItem \<Rightarrow> string \<Rightarrow> string" where
  "pattern cls item identifier =
     OPENING cls @ identifier @ '': '' @ label item @ '' ''
       @ property_list_text identifier (non_null_keys (properties item)) @ CLOSING cls"

text \<open>
  The shape \<open><leftId><direction><rightId>\<close> of a whole identifier: some split point
  leaves one or more id characters on the left, then \<open><-\<close> or \<open>->\<close>, then one or more
  id characters up to the end.
\<close>

definition edge_id_shape :: "string \<Rightarrow> bool" where
  "edge_id_shape s \<longleftrightarrow>
     list_ex (\<lambda>n. let left_id = take n s; tok = take 2 (drop n s); right_id = drop (n + 2) s
                  in left_id \<noteq> [] \<and> list_all is_id_char left_id
                     \<and> (tok = ''<-'' \<or> tok = ''->'')
                     \<and> right_id \<noteq> [] \<and> list_all is_id_char right_id)
             [0..<length s]"

text \<open>
  The statements of a run when the store raises on none: the clear, one create statement
  per node, and one statement per edge up to the first edge whose identifier does not
  parse or resolve; and the exception of that edge.
\<close>

definition node_statements :: "(string, Neo4jItem) dict \<Rightarrow> statement list" where
  "node_statements nodes = map (\<lambda>(nid, node). create_node_statement node) nodes"

fun edge_statements :: "(string, Neo4jItem) dict \<Rightarrow> (string, Neo4jItem) dict \<Rightarrow> statement list" where
  "edge_statements nodes [] = []"
| "edge_statements nodes ((eid, edge) # rest) =
     (case resolve_edge nodes eid of
        Inl ex \<Rightarrow> []
      | Inr (node1, node2, direction) \<Rightarrow>
          create_edge_statement node1 node2 edge direction # edge_statements nodes rest)"

fun first_edge_error :: "(string, Neo4jItem) dict \<Rightarrow> (string, Neo4jItem) dict \<Rightarrow> error option" where
  "first_edge_error nodes [] = None"
| "first_edge_error nodes ((eid, edge) # rest) =
     (case resolve_edge nodes eid of
        Inl ex \<Rightarrow> Some ex
      | Inr r \<Rightarrow> first_edge_error nodes rest)"

definition planned_statements ::
    "bool \<Rightarrow> (string, Neo4jItem) dict \<Rightarrow> (string, Neo4jItem) dict \<Rightarrow> statement list" where
  "planned_statements clear nodes edges =
     (if clear then clear_statements else []) @ node_statements nodes @ edge_statements nodes edges"

text \<open>
  A store that raises on nothing, a store that raises on every statement, and the items of
  the examples.
\<close>

definition accepting_store :: store where
  "accepting_store = \<lparr>run_raises = (\<lambda>tx q. None), commit_raises = (\<lambda>tx. None)\<rparr>"

definition rejecting_store :: store where
  "rejecting_store = \<lparr>run_raises = (\<lambda>tx q. Some ''unavailable''), commit_raises = (\<lambda>tx. None)\<rparr>"

definition example_node :: Neo4jItem where
  "example_node = \<lparr>label = ''L'', properties = [(''name'', JStr ''a''), (''note'', JNull)]\<rparr>"

definition example_edge :: Neo4jItem where
  "example_edge = \<lparr>label = ''KNOWS'', properties = [(''name'', JStr ''e''), (''since'', JNull)]\<rparr>"

definition node_A :: Neo4jItem where
  "node_A = \<lparr>label = ''Person'', properties = [(''name'', JStr ''A'')]\<rparr>"

definition node_B :: Neo4jItem where
  "node_B = \<lparr>label = ''Person'', properties = [(''name'', JStr ''B'')]\<rparr>"

definition edge_KNOWS :: Neo4jItem where
  "edge_KNOWS = \<lparr>label = ''KNOWS'', properties = []\<rparr>"

definition unsafe_label :: string where
  "unsafe_label = ''A) DETACH DELETE (m''"

section \<open>Python dicts as association lists\<close>

lemma fold_update_fresh:
  "distinct (map fst kvs) \<Longrightarrow> fst ` set kvs \<inter> fst ` set acc = {} \<Longrightarrow>
   fold (\<lambda>(k, v) d. AList.update k v d) kvs acc = acc @ kvs"
proof (induction kvs arbitrary: acc)
  case Nil
  then show ?case by simp
next
  case (Cons kv kvs)
  obtain k v where kv: "kv = (k, v)" by (cases kv)
  from Cons.prems have fresh: "k \<notin> fst ` set acc" by (auto simp: kv)
  then have upd: "AList.update k v acc = acc @ [(k, v)]"
    by (induction acc) auto
  from Cons.prems have "fst ` set kvs \<inter> fst ` set (acc @ [(k, v)]) = {}"
    by (auto simp: kv)
  with Cons.IH [of "acc @ [(k, v)]"] Cons.prems show ?case
    by (simp add: kv upd)
qed

lemma dict_of_items_distinct:
  "distinct (map fst kvs) \<Longrightarrow> dict_of_items kvs = kvs"
  using fold_update_fresh [of kvs "[]"] by (simp add: dict_of_items_def)

lemma fold_update_keys:
  "fst ` set (fold (\<lambda>(k, v) d. AList.update k v d) kvs acc) = fst ` set acc \<union> fst ` set kvs"
  by (induction kvs arbitrary: acc) (auto simp: AList.dom_update split: prod.splits)

lemma fold_update_distinct:
  "distinct (map fst acc) \<Longrightarrow> distinct (map fst (fold (\<lambda>(k, v) d. AList.update k v d) kvs acc))"
  by (induction kvs arbitrary: acc) (auto simp: AList.distinct_update split: prod.splits)

lemma dict_of_items_keys: "fst ` set (dict_of_items kvs) = fst ` set kvs"
  by (simp add: dict_of_items_def fold_update_keys)

lemma dict_of_items_is_dict: "distinct (map fst (dict_of_items kvs))"
  by (simp add: dict_of_items_def fold_update_distinct)

lemma distinct_filter_keys:
  "distinct (map fst kvs) \<Longrightarrow> distinct (map fst (filter P kvs))"
  by (simp add: distinct_map_filter)

lemma distinct_prefixed_keys:
  "distinct (map fst kvs) \<Longrightarrow> distinct (map fst (map (\<lambda>(k, v). (p @ k, v)) kvs))"
  by (induction kvs) (auto simp: image_iff)

lemma map_of_prefixed:
  "distinct (map fst kvs) \<Longrightarrow> (k, v) \<in> set kvs \<Longrightarrow>
   map_of (map (\<lambda>(k, v). (p @ k, v)) kvs) (p @ k) = Some v"
  by (induction kvs) (auto simp: image_iff)

section \<open>Property serialisation\<close>

lemma query_str_dict:
  assumes "distinct (map fst (properties self))"
  shows "query_str cls self identifier =
    (OPENING cls @ identifier @ '': '' @ label self @ '' '' @ ''{''
       @ join '', '' (map (\<lambda>k. k @ '': $'' @ identifier @ ''_'' @ k)
                        (map fst (filter (\<lambda>(k, v). v \<noteq> JNull) (properties self))))
       @ ''}'' @ CLOSING cls,
     map (\<lambda>(k, v). (identifier @ ''_'' @ k, v)) (filter (\<lambda>(k, v). v \<noteq> JNull) (properties self)))"
proof -
  let ?nn = "filter (\<lambda>(k, v). v \<noteq> JNull) (properties self)"
  have d: "distinct (map fst ?nn)" using assms by (rule distinct_filter_keys)
  have "distinct (map fst (map (\<lambda>(k, v). ((identifier @ ''_'') @ k, v)) ?nn))"
    using d by (rule distinct_prefixed_keys)
  then have "dict_of_items (map (\<lambda>(k, v). (identifier @ ''_'' @ k, v)) ?nn)
      = map (\<lambda>(k, v). (identifier @ ''_'' @ k, v)) ?nn"
    using dict_of_items_distinct by fastforce
  then show ?thesis
    by (simp add: query_str_def Let_def dict_of_items_distinct [OF d] keys_def)
qed

lemma query_str_pattern:
  "distinct (keys (properties item)) \<Longrightarrow>
   query_str cls item identifier = (pattern cls item identifier, bound_params item identifier)"
  by (simp add: query_str_dict keys_def pattern_def bound_params_def non_null_items_def
      property_list_text_def non_null_keys_def)

lemma query_str_params_are_dict: "distinct (map fst (snd (query_str cls self identifier)))"
  by (simp add: query_str_def Let_def dict_of_items_is_dict)

lemma query_str_params_prefixed:
  "k \<in> fst ` set (snd (query_str cls self identifier)) \<Longrightarrow> \<exists>k'. k = identifier @ ''_'' @ k'"
  by (auto simp: query_str_def Let_def dict_of_items_keys)

text \<open>
  Claim C2. For every property mapping (a dict: one entry per key) and every role
  identifier, the keys whose value is null are dropped before anything is emitted: the
  property-list text lists exactly the keys whose value is not null, and the bound-parameter
  mapping has exactly their names under the scheme \<open>{identifier}_{key}\<close>. A key whose
  value is null is in neither; a key whose value is not null is in both, bound to its value.
\<close>

theorem null_properties_dropped:
  assumes "distinct (keys (properties self))"
  shows "fst (query_str cls self identifier) =
           OPENING cls @ identifier @ '': '' @ label self @ '' ''
             @ property_list_text identifier (non_null_keys (properties self)) @ CLOSING cls
       \<and> keys (snd (query_str cls self identifier)) =
           map (\<lambda>k. identifier @ ''_'' @ k) (non_null_keys (properties self))
       \<and> (\<forall>(k, v) \<in> set (properties self).
            if v = JNull
            then k \<notin> set (non_null_keys (properties self))
               \<and> identifier @ ''_'' @ k \<notin> set (keys (snd (query_str cls self identifier)))
            else k \<in> set (non_null_keys (properties self))
               \<and> map_of (snd (query_str cls self identifier)) (identifier @ ''_'' @ k) = Some v)"
proof -
  let ?nn = "filter (\<lambda>(k, v). v \<noteq> JNull) (properties self)"
  have d: "distinct (map fst (properties self))" using assms by (simp add: keys_def)
  note q = query_str_dict [OF d, of cls "identifier"]
  have t: "fst (query_str cls self identifier) =
           OPENING cls @ identifier @ '': '' @ label self @ '' ''
             @ property_list_text identifier (non_null_keys (properties self)) @ CLOSING cls"
    by (simp add: q property_list_text_def non_null_keys_def)
  have p: "keys (snd (query_str cls self identifier)) =
           map (\<lambda>k. identifier @ ''_'' @ k) (non_null_keys (properties self))"
    by (simp add: q keys_def non_null_keys_def comp_def case_prod_unfold)
  have e: "if v = JNull
            then k \<notin> set (non_null_keys (properties self))
               \<and> identifier @ ''_'' @ k \<notin> set (keys (snd (query_str cls self identifier)))
            else k \<in> set (non_null_keys (properties self))
               \<and> map_of (snd (query_str cls self identifier)) (identifier @ ''_'' @ k) = Some v"
    if kv: "(k, v) \<in> set (properties self)" for k v
  proof (cases "v = JNull")
    case True
    have "k \<notin> set (non_null_keys (properties self))"
    proof
      assume "k \<in> set (non_null_keys (properties self))"
      then obtain w where w: "(k, w) \<in> set (properties self)" "w \<noteq> JNull"
        by (auto simp: non_null_keys_def)
      from d kv w(1) have "w = v" by (meson eq_key_imp_eq_value)
      with True w(2) show False by simp
    qed
    then show ?thesis using True by (auto simp: p)
  next
    case False
    with kv have m: "(k, v) \<in> set ?nn" by simp
    have dn: "distinct (map fst ?nn)" using d by (rule distinct_filter_keys)
    have "map_of (map (\<lambda>(k, v). ((identifier @ ''_'') @ k, v)) ?nn) ((identifier @ ''_'') @ k) = Some v"
      using dn m by (rule map_of_prefixed)
    then have "map_of (snd (query_str cls self identifier)) (identifier @ ''_'' @ k) = Some v"
      by (simp add: q)
    moreover have "k \<in> set (non_null_keys (properties self))"
      using m by (force simp: non_null_keys_def)
    ultimately show ?thesis using False by simp
  qed
  from t p e show ?thesis by blast
qed

text \<open>
  The mapping \<open>{name: "a", note: null}\<close> under the role \<open>n1\<close>: only \<open>name\<close> is emitted
  and bound.
\<close>

theorem null_properties_dropped_witness:
  "distinct (keys (properties example_node))
   \<and> fst (query_str Node example_node ''n1'') = ''(n1: L {name: $n1_name})''
   \<and> keys (snd (query_str Node example_node ''n1'')) = [''n1_name'']
   \<and> ''n1_note'' \<notin> set (keys (snd (query_str Node example_node ''n1'')))
   \<and> map_of (snd (query_str Node example_node ''n1'')) ''n1_name'' = Some (JStr ''a'')"
  using null_properties_dropped [of example_node Node "''n1''"]
  by (simp add: example_node_def keys_def non_null_keys_def property_list_text_def)

text \<open>
  Claim C9, as the code has it. The label of an item is spliced into the statement as it
  is, between the role identifier and the property list, whatever it contains: the code
  neither validates nor escapes it.
\<close>

theorem label_spliced_verbatim:
  "prefix (OPENING cls @ identifier @ '': '' @ label self @ '' {'') (fst (query_str cls self identifier))"
  by (simp add: query_str_def Let_def)

text \<open>
  An empty label and a label that closes the pattern and starts another clause are both
  spliced unchanged.
\<close>

theorem label_spliced_unchecked:
  "fst (query_str Node \<lparr>label = [], properties = []\<rparr> ''n'') = ''(n:  {})''
   \<and> fst (query_str Node \<lparr>label = unsafe_label, properties = []\<rparr> ''n'')
       = ''(n: A) DETACH DELETE (m {})''"
  by (simp add: query_str_def dict_of_items_def keys_def unsafe_label_def)

section \<open>Statement building\<close>

lemma role_keys_disjoint:
  "fst ` set (snd (query_str c1 a ''n1'')) \<inter> fst ` set (snd (query_str c2 b ''n2'')) = {}"
  "fst ` set (snd (query_str c1 a ''n1'')) \<inter> fst ` set (snd (query_str c3 e ''n'')) = {}"
  "fst ` set (snd (query_str c2 b ''n2'')) \<inter> fst ` set (snd (query_str c3 e ''n'')) = {}"
  using query_str_params_prefixed [of _ c1 a "''n1''"]
        query_str_params_prefixed [of _ c2 b "''n2''"]
        query_str_params_prefixed [of _ c3 e "''n''"]
  by fastforce+

lemma create_edge_statement_params:
  "snd (create_edge_statement node1 node2 edge direction) =
     snd (query_str Node node1 ''n1'') @ snd (query_str Node node2 ''n2'')
       @ snd (query_str Edge edge ''n'')"
proof -
  have "distinct (map fst (snd (query_str Node node1 ''n1'') @ snd (query_str Node node2 ''n2'')
       @ snd (query_str Edge edge ''n'')))"
    by (simp add: query_str_params_are_dict Int_Un_distrib role_keys_disjoint)
  then show ?thesis
    by (simp add: create_edge_statement_def Let_def case_prod_unfold dict_of_items_distinct)
qed

lemma create_edge_statement_text:
  "fst (create_edge_statement node1 node2 edge direction) =
     ''\<newline>        MATCH '' @ fst (query_str Node node1 ''n1'')
     @ ''\<newline>        MATCH '' @ fst (query_str Node node2 ''n2'')
     @ ''\<newline>        CREATE (n1)'' @ (if direction = LEFT then ''<-'' else ''-'')
     @ fst (query_str Edge edge ''n'') @ (if direction = RIGHT then ''->'' else ''-'')
     @ ''(n2)'' @ ''\<newline>    ''"
  by (simp add: create_edge_statement_def Let_def case_prod_unfold)

text \<open>
  Claim C3. A node (a dict of properties: one entry per key) is matched at edge creation,
  as the left endpoint under \<open>n1\<close> and as the right endpoint under \<open>n2\<close>, by the same
  pattern as in its create statement under \<open>n\<close>: the label and the properties whose
  value is not null, with the parameters bound for exactly those; only the role identifier
  differs.
\<close>

theorem match_uses_create_representation:
  assumes "distinct (keys (properties node))"
  shows "create_node_statement node = (''CREATE '' @ pattern Node node ''n'', bound_params node ''n'')
       \<and> fst (create_edge_statement node node2 edge direction) =
           ''\<newline>        MATCH '' @ pattern Node node ''n1''
           @ ''\<newline>        MATCH '' @ fst (query_str Node node2 ''n2'')
           @ ''\<newline>        CREATE (n1)'' @ (if direction = LEFT then ''<-'' else ''-'')
           @ fst (query_str Edge edge ''n'') @ (if direction = RIGHT then ''->'' else ''-'')
           @ ''(n2)'' @ ''\<newline>    ''
       \<and> fst (create_edge_statement node1 node edge direction) =
           ''\<newline>        MATCH '' @ fst (query_str Node node1 ''n1'')
           @ ''\<newline>        MATCH '' @ pattern Node node ''n2''
           @ ''\<newline>        CREATE (n1)'' @ (if direction = LEFT then ''<-'' else ''-'')
           @ fst (query_str Edge edge ''n'') @ (if direction = RIGHT then ''->'' else ''-'')
           @ ''(n2)'' @ ''\<newline>    ''
       \<and> snd (create_edge_statement node node2 edge direction) =
           bound_params node ''n1'' @ snd (query_str Node node2 ''n2'') @ snd (query_str Edge edge ''n'')
       \<and> snd (create_edge_statement node1 node edge direction) =
           snd (query_str Node node1 ''n1'') @ bound_params node ''n2'' @ snd (query_str Edge edge ''n'')"
  using assms
  by (simp add: create_node_statement_def create_edge_statement_text create_edge_statement_params
      query_str_pattern)

text \<open>
  The node \<open>{name: "a", note: null}\<close> is created and matched with \<open>name\<close> only.
\<close>

theorem match_uses_create_representation_witness:
  "distinct (keys (properties example_node))
   \<and> create_node_statement example_node = (''CREATE (n: L {name: $n_name})'', [(''n_name'', JStr ''a'')])
   \<and> pattern Node example_node ''n1'' = ''(n1: L {name: $n1_name})''
   \<and> bound_params example_node ''n1'' = [(''n1_name'', JStr ''a'')]
   \<and> create_edge_statement example_node example_node example_edge LEFT =
       (''\<newline>        MATCH (n1: L {name: $n1_name})\<newline>        MATCH (n2: L {name: $n2_name})\<newline>        CREATE (n1)<-[n: KNOWS {name: $n_name}]-(n2)\<newline>    '',
        [(''n1_name'', JStr ''a''), (''n2_name'', JStr ''a''), (''n_name'', JStr ''e'')])"
  using match_uses_create_representation [of example_node example_node example_edge LEFT example_node]
  by (simp add: example_node_def example_edge_def keys_def pattern_def bound_params_def
      non_null_items_def non_null_keys_def property_list_text_def query_str_def dict_of_items_def
      create_edge_statement_def)

text \<open>
  Claim C6. The edge statement consists of a match clause for the left node under the
  role \<open>n1\<close>, a match clause for the right node under \<open>n2\<close>, and a create clause
  joining \<open>n1\<close> and \<open>n2\<close> through the pattern of the edge (its label and its properties
  whose value is not null): \<open>(n1)-[..]->(n2)\<close> for the direction RIGHT and
  \<open>(n1)<-[..]-(n2)\<close> for LEFT. These are the only two directions, so no statement
  joins the nodes without an arrow head.
\<close>

theorem edge_statement_shape:
  assumes "distinct (keys (properties node1))" "distinct (keys (properties node2))"
          "distinct (keys (properties edge))"
  shows "fst (create_edge_statement node1 node2 edge RIGHT) =
           ''\<newline>        MATCH '' @ pattern Node node1 ''n1''
           @ ''\<newline>        MATCH '' @ pattern Node node2 ''n2''
           @ ''\<newline>        CREATE (n1)-'' @ pattern Edge edge ''n'' @ ''->(n2)'' @ ''\<newline>    ''
       \<and> fst (create_edge_statement node1 node2 edge LEFT) =
           ''\<newline>        MATCH '' @ pattern Node node1 ''n1''
           @ ''\<newline>        MATCH '' @ pattern Node node2 ''n2''
           @ ''\<newline>        CREATE (n1)<-'' @ pattern Edge edge ''n'' @ ''-(n2)'' @ ''\<newline>    ''"
  using assms by (simp add: create_edge_statement_text query_str_pattern)

text \<open>Two persons and a KNOWS edge, in both directions.\<close>

theorem edge_statement_shape_witness:
  "distinct (keys (properties node_A)) \<and> distinct (keys (properties node_B))
   \<and> distinct (keys (properties edge_KNOWS))
   \<and> fst (create_edge_statement node_A node_B edge_KNOWS RIGHT) =
       ''\<newline>        MATCH (n1: Person {name: $n1_name})\<newline>        MATCH (n2: Person {name: $n2_name})\<newline>        CREATE (n1)-[n: KNOWS {}]->(n2)\<newline>    ''
   \<and> fst (create_edge_statement node_A node_B edge_KNOWS LEFT) =
       ''\<newline>        MATCH (n1: Person {name: $n1_name})\<newline>        MATCH (n2: Person {name: $n2_name})\<newline>        CREATE (n1)<-[n: KNOWS {}]-(n2)\<newline>    ''"
  using edge_statement_shape [of node_A node_B edge_KNOWS]
  by (simp add: node_A_def node_B_def edge_KNOWS_def keys_def pattern_def
      non_null_keys_def property_list_text_def)

text \<open>
  Claim C10. The parameter names of the left node under \<open>n1\<close>, of the right node under
  \<open>n2\<close> and of the edge under \<open>n\<close> are pairwise disjoint, whatever the property keys
  are, so the merged mapping is the three mappings one after the other and keeps every
  binding of each; nothing is assumed about the two nodes, which may be the same.
\<close>

theorem edge_parameters_disjoint:
  "set (keys (snd (query_str Node node1 ''n1''))) \<inter> set (keys (snd (query_str Node node2 ''n2''))) = {}
   \<and> set (keys (snd (query_str Node node1 ''n1''))) \<inter> set (keys (snd (query_str Edge edge ''n''))) = {}
   \<and> set (keys (snd (query_str Node node2 ''n2''))) \<inter> set (keys (snd (query_str Edge edge ''n''))) = {}
   \<and> snd (create_edge_statement node1 node2 edge direction) =
        snd (query_str Node node1 ''n1'') @ snd (query_str Node node2 ''n2'')
          @ snd (query_str Edge edge ''n'')
   \<and> (\<forall>(k, v) \<in> set (snd (query_str Node node1 ''n1'')) \<union> set (snd (query_str Node node2 ''n2''))
                    \<union> set (snd (query_str Edge edge ''n'')).
         map_of (snd (create_edge_statement node1 node2 edge direction)) k = Some v)"
proof -
  have d: "distinct (map fst (snd (create_edge_statement node1 node2 edge direction)))"
    by (simp add: create_edge_statement_params query_str_params_are_dict Int_Un_distrib
        role_keys_disjoint)
  have s: "set (snd (query_str Node node1 ''n1'')) \<union> set (snd (query_str Node node2 ''n2''))
             \<union> set (snd (query_str Edge edge ''n''))
           = set (snd (create_edge_statement node1 node2 edge direction))"
    by (simp add: create_edge_statement_params Un_assoc)
  have "\<forall>(k, v) \<in> set (snd (query_str Node node1 ''n1'')) \<union> set (snd (query_str Node node2 ''n2''))
                    \<union> set (snd (query_str Edge edge ''n'')).
         map_of (snd (create_edge_statement node1 node2 edge direction)) k = Some v"
    unfolding s using d by auto
  then show ?thesis
    by (simp add: keys_def create_edge_statement_params role_keys_disjoint)
qed

text \<open>A self-loop: both endpoints are the same node, with the same property key.\<close>

theorem edge_parameters_disjoint_witness:
  "snd (create_edge_statement example_node example_node example_edge RIGHT) =
     [(''n1_name'', JStr ''a''), (''n2_name'', JStr ''a''), (''n_name'', JStr ''e'')]
   \<and> map_of (snd (create_edge_statement example_node example_node example_edge RIGHT)) ''n1_name'' = Some (JStr ''a'')
   \<and> map_of (snd (create_edge_statement example_node example_node example_edge RIGHT)) ''n2_name'' = Some (JStr ''a'')
   \<and> map_of (snd (create_edge_statement example_node example_node example_edge RIGHT)) ''n_name'' = Some (JStr ''e'')"
  using edge_parameters_disjoint [of example_node example_node example_edge RIGHT]
  by (simp add: example_node_def example_edge_def query_str_def dict_of_items_def keys_def)

section \<open>The edge identifier grammar\<close>

text \<open>
  What the backtracking search computes: an identifier is matched exactly when one of its
  initial parts has the shape of a whole identifier, and the three groups returned make up
  such an initial part.
\<close>

lemma edge_id_shape_iff:
  "edge_id_shape s \<longleftrightarrow>
     (\<exists>l t r. s = l @ t @ r \<and> l \<noteq> [] \<and> list_all is_id_char l \<and> (t = ''<-'' \<or> t = ''->'')
                \<and> r \<noteq> [] \<and> list_all is_id_char r)"
proof
  assume "edge_id_shape s"
  then obtain n where n: "n < length s" "take n s \<noteq> []" "list_all is_id_char (take n s)"
      "take 2 (drop n s) = ''<-'' \<or> take 2 (drop n s) = ''->''"
      "drop (n + 2) s \<noteq> []" "list_all is_id_char (drop (n + 2) s)"
    by (auto simp: edge_id_shape_def list_ex_iff Let_def)
  have "s = take n s @ take 2 (drop n s) @ drop (n + 2) s"
    by (metis append_take_drop_id drop_drop add.commute)
  with n show "\<exists>l t r. s = l @ t @ r \<and> l \<noteq> [] \<and> list_all is_id_char l \<and> (t = ''<-'' \<or> t = ''->'')
                \<and> r \<noteq> [] \<and> list_all is_id_char r"
    by blast
next
  assume "\<exists>l t r. s = l @ t @ r \<and> l \<noteq> [] \<and> list_all is_id_char l \<and> (t = ''<-'' \<or> t = ''->'')
                \<and> r \<noteq> [] \<and> list_all is_id_char r"
  then obtain l t r where s: "s = l @ t @ r" and l: "l \<noteq> []" "list_all is_id_char l"
      and t: "t = ''<-'' \<or> t = ''->''" and r: "r \<noteq> []" "list_all is_id_char r"
    by blast
  from t have lt: "length t = 2" by auto
  have "length l \<in> set [0..<length s]" using s r lt by simp
  moreover have "take (length l) s = l" "take 2 (drop (length l) s) = t" "drop (length l + 2) s = r"
    using s lt by simp_all
  ultimately show "edge_id_shape s"
    unfolding edge_id_shape_def list_ex_iff Let_def using l t r by metis
qed

lemma backtrack_sound:
  assumes "backtrack k s = Some (l, t, r)" "k \<le> length (takeWhile is_id_char s)"
  shows "edge_id_shape (l @ t @ r) \<and> prefix (l @ t @ r) s"
  using assms
proof (induction k)
  case 0
  then show ?case by simp
next
  case (Suc k)
  let ?rest = "drop (Suc k) s"
  show ?case
  proof (cases "(take 2 ?rest = ''<-'' \<or> take 2 ?rest = ''->'')
                \<and> takeWhile is_id_char (drop 2 ?rest) \<noteq> []")
    case True
    with Suc.prems(1) have l: "l = take (Suc k) s" and t: "t = take 2 ?rest"
      and r: "r = takeWhile is_id_char (drop 2 ?rest)"
      by (simp_all add: Let_def)
    have "take (Suc k) s = take (Suc k) (takeWhile is_id_char s)"
      using Suc.prems(2)
      by (metis append_eq_conv_conj takeWhile_dropWhile_id take_append take_all_iff
          diff_is_0_eq' take_0 append_Nil2)
    then have "set l \<subseteq> set (takeWhile is_id_char s)"
      by (simp add: l set_take_subset)
    then have la: "list_all is_id_char l"
      by (auto simp: list_all_iff dest: set_takeWhileD)
    have "Suc k \<le> length s"
      using Suc.prems(2) length_takeWhile_le [of is_id_char s] by linarith
    then have ln: "l \<noteq> []" by (auto simp: l)
    have ra: "list_all is_id_char r"
      by (auto simp: r list_all_iff dest: set_takeWhileD)
    have "s = l @ ?rest" by (simp add: l)
    also have "?rest = t @ drop 2 ?rest"
      unfolding t by (rule append_take_drop_id [symmetric])
    also have "drop 2 ?rest = r @ dropWhile is_id_char (drop 2 ?rest)" by (simp add: r)
    finally have "prefix (l @ t @ r) s"
      by (metis append.assoc prefixI)
    moreover have "edge_id_shape (l @ t @ r)"
      unfolding edge_id_shape_iff using la ln ra True r t by blast
    ultimately show ?thesis by simp
  next
    case False
    with Suc.prems(1) have "backtrack k s = Some (l, t, r)" by (auto simp: Let_def)
    with Suc.IH Suc.prems(2) show ?thesis by simp
  qed
qed

lemma backtrack_complete:
  assumes "take 2 (drop n s) = ''<-'' \<or> take 2 (drop n s) = ''->''"
      and "takeWhile is_id_char (drop 2 (drop n s)) \<noteq> []"
      and "0 < n" "n \<le> k"
  shows "backtrack k s \<noteq> None"
  using assms(4)
proof (induction k)
  case 0
  with assms(3) show ?case by simp
next
  case (Suc k)
  show ?case
  proof (cases "n = Suc k")
    case True
    with assms(1,2) show ?thesis by (simp add: Let_def)
  next
    case False
    with Suc.prems have "n \<le> k" by simp
    with Suc.IH show ?thesis by (simp add: Let_def)
  qed
qed

lemma EDGE_REGEX_match_iff:
  "EDGE_REGEX_match s \<noteq> None \<longleftrightarrow> (\<exists>p. prefix p s \<and> edge_id_shape p)"
proof
  assume "EDGE_REGEX_match s \<noteq> None"
  then obtain l t r where "backtrack (length (takeWhile is_id_char s)) s = Some (l, t, r)"
    by (auto simp: EDGE_REGEX_match_def)
  from backtrack_sound [OF this] show "\<exists>p. prefix p s \<and> edge_id_shape p" by blast
next
  assume "\<exists>p. prefix p s \<and> edge_id_shape p"
  then obtain l t r z where s: "s = (l @ t @ r) @ z" and l: "l \<noteq> []" "list_all is_id_char l"
      and t: "t = ''<-'' \<or> t = ''->''" and r: "r \<noteq> []" "list_all is_id_char r"
    unfolding edge_id_shape_iff prefix_def by blast
  from t have lt: "length t = 2" by auto
  have 1: "take 2 (drop (length l) s) = t" using s lt by simp
  have "drop 2 (drop (length l) s) = r @ z" using s lt by simp
  moreover have "takeWhile is_id_char (r @ z) \<noteq> []"
    using r by (cases r) (auto simp: list_all_iff)
  ultimately have 2: "takeWhile is_id_char (drop 2 (drop (length l) s)) \<noteq> []" by simp
  have "takeWhile is_id_char s = l @ takeWhile is_id_char (t @ r @ z)"
    using l(2) by (simp add: s list_all_iff takeWhile_append2)
  then have 3: "length l \<le> length (takeWhile is_id_char s)" by simp
  from l(1) have 4: "0 < length l" by simp
  from backtrack_complete [OF _ 2 4 3] 1 t show "EDGE_REGEX_match s \<noteq> None"
    by (simp add: EDGE_REGEX_match_def)
qed


text \<open>
  Claim C4 at the identifier \<open>A->B!\<close>. The whole identifier does not have the shape
  (\<open>!\<close> is not an id character), yet the match succeeds with the right id \<open>B\<close>, and the
  edge is resolved as if the identifier were \<open>A->B\<close>: \<open>EDGE_REGEX.match\<close> anchors the
  pattern at the start of the identifier only.
\<close>

theorem trailing_text_accepted:
  "EDGE_REGEX_match ''A->B!'' = Some (''A'', ''->'', ''B'')
   \<and> \<not> edge_id_shape ''A->B!''
   \<and> resolve_edge [(''A'', a), (''B'', b)] ''A->B!'' = Inr (a, b, RIGHT)"
  by (simp add: EDGE_REGEX_match_def is_id_char_def resolve_edge_def edge_id_shape_def upt_rec)

section \<open>The upload run\<close>

lemma run_all_append:
  "run_all st (qs @ rs) tx =
     (case run_all st qs tx of (tx', Some ex) \<Rightarrow> (tx', Some ex) | (tx', None) \<Rightarrow> run_all st rs tx')"
  by (induction qs arbitrary: tx) (auto split: prod.splits option.splits)

lemma run_all_prefix: "prefix (fst (run_all st qs tx)) (tx @ qs)"
proof (induction qs arbitrary: tx)
  case Nil
  then show ?case by simp
next
  case (Cons q qs)
  show ?case
  proof (cases "run_raises st tx q")
    case None
    with Cons.IH [of "tx @ [q]"] show ?thesis by (simp add: tx_run_def)
  next
    case (Some msg)
    then show ?thesis by (simp add: tx_run_def)
  qed
qed

lemma run_all_complete: "snd (run_all st qs tx) = None \<Longrightarrow> fst (run_all st qs tx) = tx @ qs"
  by (induction qs arbitrary: tx) (auto simp: tx_run_def split: option.splits)

lemma run_all_accepting: "run_all accepting_store qs tx = (tx @ qs, None)"
  by (induction qs arbitrary: tx) (auto simp: tx_run_def accepting_store_def)

lemma create_nodes_run_all: "create_nodes st nodes tx = run_all st (node_statements nodes) tx"
  by (induction nodes arbitrary: tx)
     (auto simp: node_statements_def create_node_def split: prod.splits option.splits)

lemma create_edges_run_all:
  "create_edges st nodes edges tx =
     (case run_all st (edge_statements nodes edges) tx of
        (tx', Some ex) \<Rightarrow> (tx', Some ex)
      | (tx', None) \<Rightarrow> (tx', first_edge_error nodes edges))"
  by (induction edges arbitrary: tx)
     (auto simp: create_edge_def split: prod.splits option.splits sum.splits)

lemma try_block_plan:
  "try_block st clear nodes edges =
     (case run_all st (planned_statements clear nodes edges) [] of
        (tx, Some ex) \<Rightarrow> (tx, Some ex)
      | (tx, None) \<Rightarrow> (tx, first_edge_error nodes edges))"
  by (auto simp: try_block_def planned_statements_def upload_graph_def run_all_append
      create_nodes_run_all create_edges_run_all split: prod.splits option.splits)

lemma try_block_prefix:
  "prefix (fst (try_block st clear nodes edges)) (planned_statements clear nodes edges)"
  using run_all_prefix [of st "planned_statements clear nodes edges" "[]"]
  by (auto simp: try_block_plan split: prod.splits option.splits)

lemma try_block_complete:
  assumes "snd (try_block st clear nodes edges) = None"
  shows "fst (try_block st clear nodes edges) = planned_statements clear nodes edges"
    and "first_edge_error nodes edges = None"
  using assms run_all_complete [of st "planned_statements clear nodes edges" "[]"]
  by (auto simp: try_block_plan split: prod.splits option.splits)

lemma try_block_ok_iff:
  "snd (try_block st clear nodes edges) = None \<longleftrightarrow>
     first_edge_error nodes edges = None
     \<and> snd (run_all st (planned_statements clear nodes edges) []) = None"
  by (auto simp: try_block_plan split: prod.splits option.splits)

lemma edge_statements_all:
  "first_edge_error nodes edges = None \<Longrightarrow> length (edge_statements nodes edges) = length edges"
  by (induction edges) (auto split: sum.splits)

lemma no_terminal_in_runs:
  "count_list (map Run tx) Commit = 0" "count_list (map Run tx) Rollback = 0"
  by (induction tx) auto

lemma main_events:
  "events (main st clear nodes edges) =
     map Run (fst (try_block st clear nodes edges))
       @ [if snd (try_block st clear nodes edges) = None then Commit else Rollback]"
  by (auto simp: main_def split: prod.splits option.splits)

lemma main_failure:
  "try_block st clear nodes edges = (tx, Some ex) \<Longrightarrow>
   main st clear nodes edges = \<lparr>events = map Run tx @ [Rollback], reported = Some ex, exit_code = 1\<rparr>"
  by (simp add: main_def)

text \<open>
  Claim C1. When a step of the \<open>try\<close> block raises (the clear, a node creation, the
  parsing or the resolution of an edge identifier, an edge creation), the run ends with a
  rollback that comes after every statement of the transaction, reports that exception,
  exits with status 1, and never commits. When no step raises, the run commits, once, after
  all statements, and does not roll back. No step raises exactly when every edge
  identifier parses and resolves and the store raises on none of the statements.
\<close>

theorem rollback_or_single_commit:
  "(case try_block st clear nodes edges of
      (tx, Some ex) \<Rightarrow>
        main st clear nodes edges =
          \<lparr>events = map Run tx @ [Rollback], reported = Some ex, exit_code = 1\<rparr>
    | (tx, None) \<Rightarrow> events (main st clear nodes edges) = map Run tx @ [Commit])
   \<and> count_list (events (main st clear nodes edges)) Commit =
       (if snd (try_block st clear nodes edges) = None then 1 else 0)
   \<and> count_list (events (main st clear nodes edges)) Rollback =
       (if snd (try_block st clear nodes edges) = None then 0 else 1)
   \<and> (snd (try_block st clear nodes edges) = None) =
       (first_edge_error nodes edges = None
        \<and> snd (run_all st (planned_statements clear nodes edges) []) = None)"
proof -
  have a: "case try_block st clear nodes edges of
      (tx, Some ex) \<Rightarrow>
        main st clear nodes edges =
          \<lparr>events = map Run tx @ [Rollback], reported = Some ex, exit_code = 1\<rparr>
    | (tx, None) \<Rightarrow> events (main st clear nodes edges) = map Run tx @ [Commit]"
    by (auto simp: main_def split: prod.splits option.splits)
  have b: "count_list (events (main st clear nodes edges)) Commit =
       (if snd (try_block st clear nodes edges) = None then 1 else 0)"
    by (simp add: main_events no_terminal_in_runs)
  have c: "count_list (events (main st clear nodes edges)) Rollback =
       (if snd (try_block st clear nodes edges) = None then 0 else 1)"
    by (simp add: main_events no_terminal_in_runs)
  from a b c try_block_ok_iff [of st clear nodes edges] show ?thesis by blast
qed

text \<open>
  Claim C8. The statements passed to the one transaction of a run are an initial part of
  this list: the two statements of the clear (relationships, then nodes) when clearing is
  enabled, then the create statement of every node, then the statements of the edges.
  So no node is created after an edge statement and nothing is cleared after a create.
  A run in which nothing raises has passed the whole list, with one statement per edge.
\<close>

theorem statements_in_order:
  "prefix (fst (try_block st clear nodes edges))
          ((if clear then [(''MATCH (a)-[e]-(b) DELETE e;'', []), (''MATCH (n) DELETE n;'', [])] else [])
             @ node_statements nodes @ edge_statements nodes edges)
   \<and> (snd (try_block st clear nodes edges) = None \<longrightarrow>
        fst (try_block st clear nodes edges) =
          (if clear then [(''MATCH (a)-[e]-(b) DELETE e;'', []), (''MATCH (n) DELETE n;'', [])] else [])
             @ node_statements nodes @ edge_statements nodes edges
        \<and> length (edge_statements nodes edges) = length edges)
   \<and> events (main st clear nodes edges) =
       map Run (fst (try_block st clear nodes edges))
         @ [if snd (try_block st clear nodes edges) = None then Commit else Rollback]"
  using try_block_prefix [of st clear nodes edges] try_block_complete [of st clear nodes edges]
    edge_statements_all [of nodes edges] main_events [of st clear nodes edges]
  by (cases clear) (simp_all add: planned_statements_def clear_statements_def)

text \<open>
  The nodes \<open>A\<close> and \<open>B\<close> and the edge \<open>A->B\<close> with the clear: two deletes, two node
  creates, one edge statement directed from \<open>n1\<close> to \<open>n2\<close>, then the commit.
\<close>

theorem statements_in_order_witness:
  "snd (try_block accepting_store True [(''A'', node_A), (''B'', node_B)] [(''A->B'', edge_KNOWS)]) = None
   \<and> events (main accepting_store True [(''A'', node_A), (''B'', node_B)] [(''A->B'', edge_KNOWS)]) =
       [Run (''MATCH (a)-[e]-(b) DELETE e;'', []),
        Run (''MATCH (n) DELETE n;'', []),
        Run (''CREATE (n: Person {name: $n_name})'', [(''n_name'', JStr ''A'')]),
        Run (''CREATE (n: Person {name: $n_name})'', [(''n_name'', JStr ''B'')]),
        Run (''\<newline>        MATCH (n1: Person {name: $n1_name})\<newline>        MATCH (n2: Person {name: $n2_name})\<newline>        CREATE (n1)-[n: KNOWS {}]->(n2)\<newline>    '',
             [(''n1_name'', JStr ''A''), (''n2_name'', JStr ''B'')]),
        Commit]"
proof -
  have ok: "snd (try_block accepting_store True [(''A'', node_A), (''B'', node_B)] [(''A->B'', edge_KNOWS)]) = None"
    by (simp add: try_block_plan run_all_accepting resolve_edge_def EDGE_REGEX_match_def is_id_char_def)
  show ?thesis
    using ok statements_in_order [of accepting_store True "[(''A'', node_A), (''B'', node_B)]" "[(''A->B'', edge_KNOWS)]"]
    by (simp add: node_statements_def resolve_edge_def EDGE_REGEX_match_def is_id_char_def
        create_node_statement_def create_edge_statement_def query_str_def dict_of_items_def keys_def
        node_A_def node_B_def edge_KNOWS_def)
qed

lemma resolve_edge_unknown:
  assumes "EDGE_REGEX_match eid = Some (left_nid, tok, right_nid)"
      and "map_of nodes left_nid = None \<or> map_of nodes right_nid = None"
  shows "resolve_edge nodes eid =
           Inl (UnknownNodeReference eid (if map_of nodes left_nid = None then left_nid else right_nid))"
  using assms by (auto simp: resolve_edge_def)

lemma edge_statements_cut:
  "resolve_edge nodes eid = Inl ex \<Longrightarrow>
   edge_statements nodes (es @ (eid, edge) # rest) = edge_statements nodes es"
  by (induction es) (auto split: sum.splits)

lemma first_edge_error_cut:
  "resolve_edge nodes eid = Inl ex \<Longrightarrow>
   first_edge_error nodes (es @ (eid, edge) # rest) =
     (case first_edge_error nodes es of Some ex' \<Rightarrow> Some ex' | None \<Rightarrow> Some ex)"
  by (induction es) (auto split: sum.splits)

lemma try_block_cut:
  assumes "resolve_edge nodes eid = Inl ex"
  shows "fst (try_block st clear nodes (es @ (eid, edge) # rest)) = fst (try_block st clear nodes es)"
    and "snd (try_block st clear nodes (es @ (eid, edge) # rest)) \<noteq> None"
    and "snd (try_block st clear nodes es) = None \<Longrightarrow>
         try_block st clear nodes (es @ (eid, edge) # rest) = (planned_statements clear nodes es, Some ex)"
proof -
  have p: "planned_statements clear nodes (es @ (eid, edge) # rest) = planned_statements clear nodes es"
    by (simp add: planned_statements_def edge_statements_cut [OF assms])
  show "fst (try_block st clear nodes (es @ (eid, edge) # rest)) = fst (try_block st clear nodes es)"
    by (auto simp: try_block_plan p split: prod.splits option.splits)
  show "snd (try_block st clear nodes (es @ (eid, edge) # rest)) \<noteq> None"
    by (auto simp: try_block_plan p first_edge_error_cut [OF assms] split: prod.splits option.splits)
  show "try_block st clear nodes (es @ (eid, edge) # rest) = (planned_statements clear nodes es, Some ex)"
    if ok: "snd (try_block st clear nodes es) = None"
  proof -
    from ok have f: "first_edge_error nodes es = None"
      and r: "snd (run_all st (planned_statements clear nodes es) []) = None"
      by (simp_all add: try_block_ok_iff)
    from r have "run_all st (planned_statements clear nodes es) [] = (planned_statements clear nodes es, None)"
      using run_all_complete [OF r] by (simp add: prod_eq_iff)
    then show ?thesis
      by (simp add: try_block_plan p first_edge_error_cut [OF assms] f)
  qed
qed

lemma try_block_cut_failed:
  assumes "resolve_edge nodes eid = Inl ex"
      and "snd (try_block st clear nodes es) = Some ex'"
  shows "try_block st clear nodes (es @ (eid, edge) # rest) = try_block st clear nodes es"
proof -
  have p: "planned_statements clear nodes (es @ (eid, edge) # rest) = planned_statements clear nodes es"
    by (simp add: planned_statements_def edge_statements_cut [OF assms(1)])
  show ?thesis
    using assms(2)
    by (auto simp: try_block_plan p first_edge_error_cut [OF assms(1)]
        split: prod.splits option.splits)
qed

text \<open>
  Claim C7, as the code has it. When the identifier of an edge parses to an endpoint that
  is not a key of \<open>nodes\<close>, the run ends with a rollback and exit status 1 and never
  commits, and the statements it has passed are among those of the clear, the nodes and
  the edges before that one: none is issued for that edge or a later one. When every step
  before that edge succeeds, the exception reported is the one that names the edge and its
  first missing endpoint. When a step before that edge raises, the run is the run without
  that edge and the later ones: the exception reported is that of the first step that
  raised.
\<close>

theorem unknown_node_reference:
  assumes "EDGE_REGEX_match eid = Some (left_nid, tok, right_nid)"
      and "map_of nodes left_nid = None \<or> map_of nodes right_nid = None"
  shows "events (main st clear nodes (es @ (eid, edge) # rest)) =
           map Run (fst (try_block st clear nodes (es @ (eid, edge) # rest))) @ [Rollback]
       \<and> exit_code (main st clear nodes (es @ (eid, edge) # rest)) = 1
       \<and> prefix (fst (try_block st clear nodes (es @ (eid, edge) # rest)))
                ((if clear then clear_statements else []) @ node_statements nodes
                   @ edge_statements nodes es)
       \<and> (snd (try_block st clear nodes es) = None \<longrightarrow>
            main st clear nodes (es @ (eid, edge) # rest) =
              \<lparr>events = map Run ((if clear then clear_statements else []) @ node_statements nodes
                                    @ edge_statements nodes es) @ [Rollback],
               reported = Some (UnknownNodeReference eid
                                  (if map_of nodes left_nid = None then left_nid else right_nid)),
               exit_code = 1\<rparr>)
       \<and> (snd (try_block st clear nodes es) = Some ex' \<longrightarrow>
            main st clear nodes (es @ (eid, edge) # rest) =
              \<lparr>events = map Run (fst (try_block st clear nodes es)) @ [Rollback],
               reported = Some ex',
               exit_code = 1\<rparr>)"
proof -
  let ?edges = "es @ (eid, edge) # rest"
  note r = resolve_edge_unknown [OF assms]
  note cut = try_block_cut [OF r, of st clear es edge rest]
  obtain tx ex where t: "try_block st clear nodes ?edges = (tx, Some ex)"
    using cut(2) by (cases "try_block st clear nodes ?edges") auto
  have m: "main st clear nodes ?edges =
      \<lparr>events = map Run tx @ [Rollback], reported = Some ex, exit_code = 1\<rparr>"
    using t by (rule main_failure)
  have 1: "events (main st clear nodes ?edges) = map Run (fst (try_block st clear nodes ?edges)) @ [Rollback]"
    by (simp add: m t)
  have 2: "exit_code (main st clear nodes ?edges) = 1" by (simp add: m)
  have 3: "prefix (fst (try_block st clear nodes ?edges))
                ((if clear then clear_statements else []) @ node_statements nodes
                   @ edge_statements nodes es)"
    using try_block_prefix [of st clear nodes es] by (simp add: cut(1) planned_statements_def)
  have 4: "main st clear nodes ?edges =
              \<lparr>events = map Run ((if clear then clear_statements else []) @ node_statements nodes
                                    @ edge_statements nodes es) @ [Rollback],
               reported = Some (UnknownNodeReference eid
                                  (if map_of nodes left_nid = None then left_nid else right_nid)),
               exit_code = 1\<rparr>"
    if "snd (try_block st clear nodes es) = None"
    using main_failure [OF cut(3) [OF that]] by (simp add: planned_statements_def)
  have 5: "main st clear nodes ?edges =
              \<lparr>events = map Run (fst (try_block st clear nodes es)) @ [Rollback],
               reported = Some ex',
               exit_code = 1\<rparr>"
    if e: "snd (try_block st clear nodes es) = Some ex'"
  proof -
    have "try_block st clear nodes ?edges = (fst (try_block st clear nodes es), Some ex')"
      using try_block_cut_failed [OF r e, of edge rest] e by (simp add: prod_eq_iff)
    then show ?thesis by (rule main_failure)
  qed
  from 1 2 3 4 5 show ?thesis by blast
qed

text \<open>
  The edge \<open>A->Z\<close> with no node \<open>Z\<close>: the clear and the create of \<open>A\<close> are rolled
  back and the unknown node is reported; with a store that raises on the create of \<open>A\<close>,
  the error of the store is reported.
\<close>

theorem unknown_node_reference_witness:
  "EDGE_REGEX_match ''A->Z'' = Some (''A'', ''->'', ''Z'')
   \<and> map_of [(''A'', node_A)] ''Z'' = None
   \<and> snd (try_block accepting_store True [(''A'', node_A)] []) = None
   \<and> main accepting_store True [(''A'', node_A)] [(''A->Z'', edge_KNOWS)] =
       \<lparr>events = [Run (''MATCH (a)-[e]-(b) DELETE e;'', []),
                  Run (''MATCH (n) DELETE n;'', []),
                  Run (''CREATE (n: Person {name: $n_name})'', [(''n_name'', JStr ''A'')]),
                  Rollback],
        reported = Some (UnknownNodeReference ''A->Z'' ''Z''),
        exit_code = 1\<rparr>
   \<and> snd (try_block rejecting_store False [(''A'', node_A)] []) = Some (StoreError ''unavailable'')
   \<and> main rejecting_store False [(''A'', node_A)] [(''A->Z'', edge_KNOWS)] =
       \<lparr>events = [Run (''CREATE (n: Person {name: $n_name})'', [(''n_name'', JStr ''A'')]),
                  Rollback],
        reported = Some (StoreError ''unavailable''),
        exit_code = 1\<rparr>"
proof -
  have m: "EDGE_REGEX_match ''A->Z'' = Some (''A'', ''->'', ''Z'')"
    by (simp add: EDGE_REGEX_match_def is_id_char_def)
  have z: "map_of [(''A'', node_A)] ''A'' = None \<or> map_of [(''A'', node_A)] ''Z'' = None"
    by simp
  have ok: "snd (try_block accepting_store True [(''A'', node_A)] []) = None"
    by (simp add: try_block_plan run_all_accepting)
  have ko: "try_block rejecting_store False [(''A'', node_A)] [] =
      ([(''CREATE (n: Person {name: $n_name})'', [(''n_name'', JStr ''A'')])],
       Some (StoreError ''unavailable''))"
    by (simp add: try_block_def upload_graph_def create_node_def tx_run_def rejecting_store_def
        create_node_statement_def query_str_def dict_of_items_def keys_def node_A_def)
  show ?thesis
    using m ok ko
      unknown_node_reference [OF m z, where st = accepting_store and clear = True and es = "[]"
        and edge = edge_KNOWS and rest = "[]"]
      unknown_node_reference [OF m z, where st = rejecting_store and clear = False and es = "[]"
        and edge = edge_KNOWS and rest = "[]" and ex' = "StoreError ''unavailable''"]
    by (simp add: node_statements_def clear_statements_def create_node_statement_def query_str_def
        dict_of_items_def keys_def node_A_def)
qed

text \<open>
  With a malformed identifier before \<open>A->Z\<close> the run reports the malformed identifier,
  not the unknown node.
\<close>

theorem earlier_failure_reported_instead:
  "EDGE_REGEX_match ''A->Z'' = Some (''A'', ''->'', ''Z'')
   \<and> map_of [(''A'', node_A)] ''Z'' = None
   \<and> reported (main accepting_store True [(''A'', node_A)]
                  [(''bad'', edge_KNOWS), (''A->Z'', edge_KNOWS)])
       = Some (ParseError ''bad'' EDGE_REGEX_pattern)
   \<and> ParseError ''bad'' EDGE_REGEX_pattern \<noteq> UnknownNodeReference ''A->Z'' ''Z''"
  by (simp add: main_def try_block_plan run_all_accepting resolve_edge_def EDGE_REGEX_match_def
      is_id_char_def ParseError_def UnknownNodeReference_def)

end
